theory Spec2Isabelle
  imports Main "HOL-Library.Monad_Syntax"
begin

section \<open>Data model (src/ChessGame/Main.cpp, lines 9-76)\<close>

text \<open>
  The two enumerations of the source, with their \<open>None\<close> members (renamed, since
  \<open>None\<close> is the empty option in HOL).
\<close>

datatype PieceType = NoType | Rook | Knight | Bishop | Queen | King | Pawn

datatype PieceColor = NoColor | Black | White

text \<open>
  \<open>struct Vector2Int { int x; int y; }\<close>. Coordinates are mathematical integers: every
  coordinate the engine computes is an in-bounds coordinate plus an offset of absolute value
  at most 14, far from the range where a C++ \<open>int\<close> would overflow.
\<close>

datatype Vector2Int = Vector2Int (vx: int) (vy: int)

text \<open>
  \<open>class Piece\<close>: its four data members. The dynamic class of a piece (Rook, ..., Pawn)
  is fixed by its constructor together with the \<open>type\<close> member, so the \<open>type\<close> member
  stands for the class and selects the virtual functions.
\<close>

record Piece =
  type :: PieceType
  color :: PieceColor
  boardPosition :: Vector2Int
  hasMoved :: bool

text \<open>
  The grid \<open>std::vector<std::vector<std::unique_ptr<Piece>>>\<close>, resized to 8 by 8 by the
  constructor of \<open>Board\<close>: a map from coordinates to the piece a square owns, \<open>None\<close> for
  a null pointer. \<open>squares[y][x]\<close> of the source is \<open>sq (Vector2Int x y)\<close>. Every read
  and write of the source is guarded by \<open>InBounds\<close> or by loop bounds 0..7, and the
  model keeps each guard.
\<close>

type_synonym Squares = "Vector2Int \<Rightarrow> Piece option"

definition BOARD_SIZE :: int where
  "BOARD_SIZE = 8"

definition InBounds :: "int \<Rightarrow> int \<Rightarrow> bool" where
  "InBounds x y \<longleftrightarrow> x \<ge> 0 \<and> x < BOARD_SIZE \<and> y \<ge> 0 \<and> y < BOARD_SIZE"

definition CanMoveTo :: "Squares \<Rightarrow> int \<Rightarrow> int \<Rightarrow> PieceColor \<Rightarrow> bool" where
  "CanMoveTo board x y ownColor =
     (if \<not> InBounds x y then False
      else case board (Vector2Int x y) of
             None \<Rightarrow> True
           | Some q \<Rightarrow> color q \<noteq> ownColor)"

section \<open>Move generation (lines 78-262)\<close>

text \<open>
  The inner loop of Rook, Bishop and Queen: \<open>for (step = 1; step < BOARD_SIZE; ++step)\<close>
  along one direction \<open>d\<close>, with its two \<open>break\<close>s. The list argument holds the steps
  still to run.
\<close>

fun ray :: "Squares \<Rightarrow> PieceColor \<Rightarrow> Vector2Int \<Rightarrow> int \<times> int \<Rightarrow> int list \<Rightarrow> Vector2Int list" where
  "ray board c pos d [] = []"
| "ray board c pos d (step # rest) =
     (let nx = vx pos + fst d * step;
          ny = vy pos + snd d * step
      in if \<not> InBounds nx ny then []
         else case board (Vector2Int nx ny) of
                None \<Rightarrow> Vector2Int nx ny # ray board c pos d rest
              | Some q \<Rightarrow> (if color q \<noteq> c then [Vector2Int nx ny] else []))"

definition steps :: "int list" where
  "steps = [1, 2, 3, 4, 5, 6, 7]"

definition slide :: "Squares \<Rightarrow> Piece \<Rightarrow> (int \<times> int) list \<Rightarrow> Vector2Int list" where
  "slide board p dirs = concat (map (\<lambda>d. ray board (color p) (boardPosition p) d steps) dirs)"

definition rook_dirs :: "(int \<times> int) list" where
  "rook_dirs = [(1, 0), (-1, 0), (0, 1), (0, -1)]"

definition bishop_dirs :: "(int \<times> int) list" where
  "bishop_dirs = [(1, 1), (1, -1), (-1, 1), (-1, -1)]"

definition queen_dirs :: "(int \<times> int) list" where
  "queen_dirs = [(1, 0), (-1, 0), (0, 1), (0, -1), (1, 1), (1, -1), (-1, 1), (-1, -1)]"

definition knight_jumps :: "(int \<times> int) list" where
  "knight_jumps = [(1, 2), (2, 1), (-1, 2), (-2, 1), (1, -2), (2, -1), (-1, -2), (-2, -1)]"

text \<open>The King's double loop over \<open>dx\<close> (outer) and \<open>dy\<close> (inner), skipping (0,0).\<close>

definition king_offsets :: "(int \<times> int) list" where
  "king_offsets = [(-1, -1), (-1, 0), (-1, 1), (0, -1), (0, 1), (1, -1), (1, 0), (1, 1)]"

text \<open>
  The body shared by the Knight's and the King's loops: the target is kept when it is in
  bounds and empty or held by another colour.
\<close>

definition jump :: "Squares \<Rightarrow> Piece \<Rightarrow> int \<times> int \<Rightarrow> Vector2Int list" where
  "jump board p j =
     (let nx = vx (boardPosition p) + fst j;
          ny = vy (boardPosition p) + snd j
      in if InBounds nx ny
            \<and> (case board (Vector2Int nx ny) of None \<Rightarrow> True | Some q \<Rightarrow> color q \<noteq> color p)
         then [Vector2Int nx ny] else [])"

text \<open>One round of the Pawn's loop \<open>for (int dx : {-1, 1})\<close>.\<close>

definition pawn_capture :: "Squares \<Rightarrow> Piece \<Rightarrow> int \<Rightarrow> int \<Rightarrow> Vector2Int list" where
  "pawn_capture board p direction dx =
     (let nx = vx (boardPosition p) + dx;
          ny = vy (boardPosition p) + direction
      in if InBounds nx ny
            \<and> (case board (Vector2Int nx ny) of None \<Rightarrow> False | Some q \<Rightarrow> color q \<noteq> color p)
         then [Vector2Int nx ny] else [])"

definition PawnMoves :: "Squares \<Rightarrow> Piece \<Rightarrow> Vector2Int list" where
  "PawnMoves board p =
     (let direction = (if color p = White then -1 else 1);
          startRow = (if color p = White then 6 else 1);
          x = vx (boardPosition p);
          y = vy (boardPosition p)
      in (if InBounds x (y + direction) \<and> board (Vector2Int x (y + direction)) = None then
            Vector2Int x (y + direction) #
            (if y = startRow \<and> InBounds x (y + 2 * direction)
                \<and> board (Vector2Int x (y + 2 * direction)) = None
             then [Vector2Int x (y + 2 * direction)] else [])
          else [])
         @ pawn_capture board p direction (-1)
         @ pawn_capture board p direction 1)"

text \<open>
  The virtual \<open>GetValidMoves\<close>, dispatched on the class of the piece. No class has the
  type \<open>None\<close>; the model gives such a piece no move.
\<close>

definition GetValidMoves :: "Squares \<Rightarrow> Piece \<Rightarrow> Vector2Int list" where
  "GetValidMoves board p =
     (case type p of
        Rook \<Rightarrow> slide board p rook_dirs
      | Knight \<Rightarrow> concat (map (jump board p) knight_jumps)
      | Bishop \<Rightarrow> slide board p bishop_dirs
      | Queen \<Rightarrow> slide board p queen_dirs
      | King \<Rightarrow> concat (map (jump board p) king_offsets)
      | Pawn \<Rightarrow> PawnMoves board p
      | NoType \<Rightarrow> [])"

text \<open>\<open>IsPromotion\<close>: false in the base class, overridden by Pawn.\<close>

definition IsPromotion :: "Piece \<Rightarrow> bool" where
  "IsPromotion p =
     (case type p of
        Pawn \<Rightarrow> (color p = White \<and> vy (boardPosition p) = 0)
                \<or> (color p = Black \<and> vy (boardPosition p) = 7)
      | _ \<Rightarrow> False)"

text \<open>\<open>PieceFactory::CreatePiece\<close>: a fresh piece with \<open>hasMoved = false\<close>, or a null pointer.\<close>

definition CreatePiece :: "PieceType \<Rightarrow> PieceColor \<Rightarrow> Vector2Int \<Rightarrow> Piece option" where
  "CreatePiece t c pos =
     (case t of
        NoType \<Rightarrow> None
      | _ \<Rightarrow> Some \<lparr>type = t, color = c, boardPosition = pos, hasMoved = False\<rparr>)"

section \<open>The board (lines 286-552)\<close>

datatype MoveResult = Invalid | Success | Check | Checkmate | Stalemate

text \<open>
  \<open>Board::MoveCommand\<close> without its back reference to the board. The two owning
  pointers may be null.
\<close>

record MoveCommand =
  cmdFrom :: Vector2Int
  cmdTo :: Vector2Int
  movedPiece :: "Piece option"
  capturedPiece :: "Piece option"
  wasMoved :: bool
  promotionOccurred :: bool
  previousTurn :: PieceColor

text \<open>\<open>class Board\<close>; the stack \<open>history\<close> is a list whose head is the top.\<close>

record Board =
  squares :: Squares
  currentTurn :: PieceColor
  gameOver :: bool
  winner :: PieceColor
  history :: "MoveCommand list"

text \<open>
  The order in which the double loops \<open>for y ... for x ...\<close> of \<open>FindKing\<close>,
  \<open>IsInCheck\<close> and \<open>HasLegalMoves\<close> visit the squares.
\<close>

definition coords :: "int list" where
  "coords = [0, 1, 2, 3, 4, 5, 6, 7]"

definition scan_order :: "Vector2Int list" where
  "scan_order = concat (map (\<lambda>y. map (\<lambda>x. Vector2Int x y) coords) coords)"

definition is_king_of :: "Squares \<Rightarrow> PieceColor \<Rightarrow> Vector2Int \<Rightarrow> bool" where
  "is_king_of sq c pos =
     (case sq pos of None \<Rightarrow> False | Some p \<Rightarrow> type p = King \<and> color p = c)"

definition FindKing :: "Squares \<Rightarrow> PieceColor \<Rightarrow> Vector2Int" where
  "FindKing sq c =
     (case find (is_king_of sq c) scan_order of
        Some pos \<Rightarrow> pos
      | None \<Rightarrow> Vector2Int (-1) (-1))"

definition attacks :: "Squares \<Rightarrow> PieceColor \<Rightarrow> Vector2Int \<Rightarrow> Vector2Int \<Rightarrow> bool" where
  "attacks sq c kingPos pos =
     (case sq pos of
        None \<Rightarrow> False
      | Some p \<Rightarrow> color p \<noteq> c \<and> kingPos \<in> set (GetValidMoves sq p))"

definition IsInCheck :: "Squares \<Rightarrow> PieceColor \<Rightarrow> bool" where
  "IsInCheck sq c =
     (let kingPos = FindKing sq c
      in if vx kingPos = -1 then False
         else list_ex (attacks sq c kingPos) scan_order)"

section \<open>Pointer operations\<close>

text \<open>
  \<open>dst = std::move(src)\<close> on two squares: the destination takes the pointer, the source
  becomes null; moving a \<open>unique_ptr\<close> onto itself leaves it as it is.
\<close>

definition move_ptr :: "Squares \<Rightarrow> Vector2Int \<Rightarrow> Vector2Int \<Rightarrow> Squares" where
  "move_ptr sq dst src = (if dst = src then sq else sq(dst := sq src, src := None))"

text \<open>
  \<open>squares[..][..]->member = v\<close>: a write through the pointer a square holds. Through a
  null pointer the source has no defined behaviour; the model returns \<open>None\<close> there, and
  every function that dereferences a square returns an option for that reason.
\<close>

definition modify :: "Squares \<Rightarrow> Vector2Int \<Rightarrow> (Piece \<Rightarrow> Piece) \<Rightarrow> Squares option" where
  "modify sq pos f = (case sq pos of None \<Rightarrow> None | Some p \<Rightarrow> Some (sq(pos := Some (f p))))"

section \<open>HasLegalMoves (lines 417-446)\<close>

text \<open>
  The body of the innermost loop: simulate the move of the piece on \<open>src\<close> to \<open>mv\<close>, ask
  \<open>IsInCheck\<close>, restore. It returns \<open>stillInCheck\<close> and the squares it leaves.
\<close>

definition simulate :: "Squares \<Rightarrow> Vector2Int \<Rightarrow> Vector2Int \<Rightarrow> PieceColor \<Rightarrow> (bool \<times> Squares) option" where
  "simulate sq src mv c = do {
     let originalTarget = sq mv;
     let sq1 = sq(mv := None);
     p \<leftarrow> sq1 src;
     let originalPos = boardPosition p;
     sq2 \<leftarrow> modify sq1 src (\<lambda>q. q\<lparr>boardPosition := mv\<rparr>);
     let sq3 = move_ptr sq2 mv src;
     let sq4 = sq3(src := None);
     let stillInCheck = IsInCheck sq4 c;
     let sq5 = move_ptr sq4 src mv;
     sq6 \<leftarrow> modify sq5 src (\<lambda>q. q\<lparr>boardPosition := originalPos\<rparr>);
     let sq7 = sq6(mv := originalTarget);
     Some (stillInCheck, sq7)
   }"

text \<open>The loop over the moves of one piece, with its early \<open>return true\<close>.\<close>

fun try_moves :: "Squares \<Rightarrow> Vector2Int \<Rightarrow> PieceColor \<Rightarrow> Vector2Int list \<Rightarrow> (bool \<times> Squares) option" where
  "try_moves sq src c [] = Some (False, sq)"
| "try_moves sq src c (mv # rest) =
     (case simulate sq src mv c of
        None \<Rightarrow> None
      | Some (stillInCheck, sq') \<Rightarrow>
          if \<not> stillInCheck then Some (True, sq') else try_moves sq' src c rest)"

text \<open>The double loop over the squares. The moves of a piece are generated once, before its loop.\<close>

fun scan_legal :: "Squares \<Rightarrow> PieceColor \<Rightarrow> Vector2Int list \<Rightarrow> (bool \<times> Squares) option" where
  "scan_legal sq c [] = Some (False, sq)"
| "scan_legal sq c (pos # rest) =
     (case sq pos of
        None \<Rightarrow> scan_legal sq c rest
      | Some p \<Rightarrow>
          if color p = c then
            (case try_moves sq pos c (GetValidMoves sq p) of
               None \<Rightarrow> None
             | Some (found, sq') \<Rightarrow> if found then Some (True, sq') else scan_legal sq' c rest)
          else scan_legal sq c rest)"

definition HasLegalMoves :: "Board \<Rightarrow> PieceColor \<Rightarrow> (bool \<times> Board) option" where
  "HasLegalMoves b c =
     (case scan_legal (squares b) c scan_order of
        None \<Rightarrow> None
      | Some (found, sq') \<Rightarrow> Some (found, b\<lparr>squares := sq'\<rparr>))"

section \<open>MovePiece (lines 448-530) and HandlePromotion (lines 544-546)\<close>

definition HandlePromotion :: "Squares \<Rightarrow> Vector2Int \<Rightarrow> Squares option" where
  "HandlePromotion sq pos =
     (case sq pos of
        None \<Rightarrow> None
      | Some q \<Rightarrow> Some (sq(pos := CreatePiece Queen (color q) pos)))"

definition flip :: "PieceColor \<Rightarrow> PieceColor" where
  "flip c = (if c = White then Black else White)"

text \<open>
  The end of \<open>MovePiece\<close> (lines 502-529): flip the turn, push the record, classify the
  new side to move.
\<close>

definition commit :: "Board \<Rightarrow> Squares \<Rightarrow> MoveCommand \<Rightarrow> (MoveResult \<times> Board) option" where
  "commit b sq5 cmd = do {
     let b1 = b\<lparr>squares := sq5, currentTurn := flip (currentTurn b)\<rparr>;
     let b2 = b1\<lparr>history := cmd # history b1\<rparr>;
     let inCheck = IsInCheck (squares b2) (currentTurn b2);
     (hasMoves, b3) \<leftarrow> HasLegalMoves b2 (currentTurn b2);
     if inCheck \<and> \<not> hasMoves then
       Some (Checkmate, b3\<lparr>gameOver := True, winner := flip (currentTurn b3)\<rparr>)
     else if \<not> inCheck \<and> \<not> hasMoves then
       Some (Stalemate, b3\<lparr>gameOver := True, winner := NoColor\<rparr>)
     else if inCheck then Some (Check, b3)
     else Some (Success, b3)
   }"

text \<open>
  Lines 466-499, entered once the move has passed the checks of lines 449-465: snapshot,
  apply the move on the squares, promote, and either revert (the king of the mover is
  attacked) or go on to \<open>commit\<close>. \<open>piece\<close> of the source is a reference to the square
  \<open>from\<close>: the snapshot reads it before any write (the argument \<open>piece\<close>), and each
  later use reads that square again. The primed names are the locals \<open>wasMoved\<close>,
  \<open>capturedPiece\<close> and \<open>previousTurn\<close> of the source.
\<close>

definition apply_move :: "Board \<Rightarrow> Vector2Int \<Rightarrow> Vector2Int \<Rightarrow> Piece \<Rightarrow> (MoveResult \<times> Board) option" where
  "apply_move b from to piece = do {
     let wasMoved' = hasMoved piece;
     let movedPieceCopy = Some piece;
     let capturedPiece' = squares b to;
     let previousTurn' = currentTurn b;
     let originalTarget = squares b to;
     let sq1 = (squares b)(to := None);
     pc \<leftarrow> sq1 from;
     let originalPos = boardPosition pc;
     sq2 \<leftarrow> modify sq1 from (\<lambda>q. q\<lparr>boardPosition := to\<rparr>);
     sq3 \<leftarrow> modify sq2 from (\<lambda>q. q\<lparr>hasMoved := True\<rparr>);
     pc' \<leftarrow> sq3 from;
     let isPromotion = IsPromotion pc';
     let sq4 = (move_ptr sq3 to from)(from := None);
     sq5 \<leftarrow> (if isPromotion then HandlePromotion sq4 to else Some sq4);
     if IsInCheck sq5 previousTurn' then do {
       let sq6 = move_ptr sq5 from to;
       sq7 \<leftarrow> modify sq6 from (\<lambda>q. q\<lparr>boardPosition := originalPos\<rparr>);
       Some (Invalid, b\<lparr>squares := sq7(to := originalTarget)\<rparr>)
     }
     else commit b sq5
            \<lparr>cmdFrom = from, cmdTo = to, movedPiece = movedPieceCopy,
             capturedPiece = capturedPiece', wasMoved = wasMoved',
             promotionOccurred = isPromotion, previousTurn = previousTurn'\<rparr>
   }"

text \<open>
  Lines 448-465: the rejections. The loop of lines 458-464 sets \<open>moveLegal\<close> exactly when
  \<open>to\<close> occurs in \<open>validMoves\<close>. A rejection here returns the board untouched.
\<close>

definition MovePiece :: "Board \<Rightarrow> Vector2Int \<Rightarrow> Vector2Int \<Rightarrow> (MoveResult \<times> Board) option" where
  "MovePiece b from to =
     (if gameOver b then Some (Invalid, b)
      else if \<not> InBounds (vx from) (vy from) \<or> \<not> InBounds (vx to) (vy to) then Some (Invalid, b)
      else case squares b from of
             None \<Rightarrow> Some (Invalid, b)
           | Some piece \<Rightarrow>
               if color piece \<noteq> currentTurn b then Some (Invalid, b)
               else if to \<notin> set (GetValidMoves (squares b) piece) then Some (Invalid, b)
               else apply_move b from to piece)"

section \<open>Undo (lines 320-336, 532-542)\<close>

definition Undo :: "MoveCommand \<Rightarrow> Board \<Rightarrow> Board option" where
  "Undo cmd b = do {
     let sq1 = (squares b)(cmdFrom cmd := movedPiece cmd);
     sq2 \<leftarrow> modify sq1 (cmdFrom cmd) (\<lambda>q. q\<lparr>boardPosition := cmdFrom cmd\<rparr>);
     sq3 \<leftarrow> modify sq2 (cmdFrom cmd) (\<lambda>q. q\<lparr>hasMoved := wasMoved cmd\<rparr>);
     let sq4 = sq3(cmdTo cmd := capturedPiece cmd);
     let sq5 = (case sq4 (cmdTo cmd) of
                  None \<Rightarrow> sq4
                | Some q \<Rightarrow> sq4(cmdTo cmd := Some (q\<lparr>boardPosition := cmdTo cmd\<rparr>)));
     Some (b\<lparr>squares := sq5, currentTurn := previousTurn cmd,
              gameOver := False, winner := NoColor\<rparr>)
   }"

definition UndoLastMove :: "Board \<Rightarrow> (bool \<times> Board) option" where
  "UndoLastMove b =
     (case history b of
        [] \<Rightarrow> Some (False, b)
      | command # rest \<Rightarrow>
          (case Undo command b of
             None \<Rightarrow> None
           | Some b' \<Rightarrow> Some (True, b'\<lparr>history := rest\<rparr>)))"

section \<open>Construction and Initialize (lines 345-383)\<close>

text \<open>
  The constructor \<open>Board()\<close>: an empty grid, White to move, an empty history.
\<close>

definition Board_new :: Board where
  "Board_new = \<lparr>squares = (\<lambda>_. None), currentTurn = White, gameOver = False,
                 winner = NoColor, history = []\<rparr>"

text \<open>
  \<open>Initialize\<close>: the two pawn loops and the sixteen assignments of the back ranks, in
  the order of the source.
\<close>

definition Initialize :: "Board \<Rightarrow> Board" where
  "Initialize b =
     (let sq1 = fold (\<lambda>i sq. sq(Vector2Int i 1 := CreatePiece Pawn Black (Vector2Int i 1))) coords (squares b);
          sq2 = sq1(Vector2Int 0 0 := CreatePiece Rook Black (Vector2Int 0 0),
                    Vector2Int 1 0 := CreatePiece Knight Black (Vector2Int 1 0),
                    Vector2Int 2 0 := CreatePiece Bishop Black (Vector2Int 2 0),
                    Vector2Int 3 0 := CreatePiece Queen Black (Vector2Int 3 0),
                    Vector2Int 4 0 := CreatePiece King Black (Vector2Int 4 0),
                    Vector2Int 5 0 := CreatePiece Bishop Black (Vector2Int 5 0),
                    Vector2Int 6 0 := CreatePiece Knight Black (Vector2Int 6 0),
                    Vector2Int 7 0 := CreatePiece Rook Black (Vector2Int 7 0));
          sq3 = fold (\<lambda>i sq. sq(Vector2Int i 6 := CreatePiece Pawn White (Vector2Int i 6))) coords sq2;
          sq4 = sq3(Vector2Int 0 7 := CreatePiece Rook White (Vector2Int 0 7),
                    Vector2Int 1 7 := CreatePiece Knight White (Vector2Int 1 7),
                    Vector2Int 2 7 := CreatePiece Bishop White (Vector2Int 2 7),
                    Vector2Int 3 7 := CreatePiece Queen White (Vector2Int 3 7),
                    Vector2Int 4 7 := CreatePiece King White (Vector2Int 4 7),
                    Vector2Int 5 7 := CreatePiece Bishop White (Vector2Int 5 7),
                    Vector2Int 6 7 := CreatePiece Knight White (Vector2Int 6 7),
                    Vector2Int 7 7 := CreatePiece Rook White (Vector2Int 7 7))
      in b\<lparr>squares := sq4\<rparr>)"

section \<open>Notions used to state the properties\<close>

text \<open>
  The squares while a move of the piece \<open>p\<close> from \<open>src\<close> to \<open>mv\<close> is simulated: the piece
  stands on \<open>mv\<close> with its position member set to \<open>mv\<close>, and \<open>src\<close> is empty.
\<close>

definition relocate :: "Squares \<Rightarrow> Vector2Int \<Rightarrow> Piece \<Rightarrow> Vector2Int \<Rightarrow> Squares" where
  "relocate sq src p mv = sq(mv := Some (p\<lparr>boardPosition := mv\<rparr>), src := None)"

text \<open>
  Some piece of colour \<open>c\<close> has a move, among those \<open>GetValidMoves\<close> lists, after which
  \<open>IsInCheck c\<close> is false: the legal move of the glossary, written over the squares the
  loops visit.
\<close>

definition can_escape :: "Squares \<Rightarrow> PieceColor \<Rightarrow> Vector2Int \<Rightarrow> bool" where
  "can_escape sq c pos =
     (case sq pos of
        None \<Rightarrow> False
      | Some p \<Rightarrow> color p = c
          \<and> list_ex (\<lambda>mv. \<not> IsInCheck (relocate sq pos p mv) c) (GetValidMoves sq p))"

definition legal_move_exists :: "Squares \<Rightarrow> PieceColor \<Rightarrow> bool" where
  "legal_move_exists sq c = list_ex (can_escape sq c) scan_order"

text \<open>
  What a move that is applied leaves on the board: the moving piece with its new position
  and \<open>hasMoved\<close> set, replaced by a fresh Queen when \<open>IsPromotion\<close> holds on the new
  square; the record that is pushed; the board once turn and history are updated.
\<close>

definition moved :: "Piece \<Rightarrow> Vector2Int \<Rightarrow> Piece" where
  "moved piece to = piece\<lparr>boardPosition := to, hasMoved := True\<rparr>"

definition landed :: "Piece \<Rightarrow> Vector2Int \<Rightarrow> Piece" where
  "landed piece to =
     (if IsPromotion (moved piece to)
      then \<lparr>type = Queen, color = color piece, boardPosition = to, hasMoved = False\<rparr>
      else moved piece to)"

definition after_move :: "Squares \<Rightarrow> Vector2Int \<Rightarrow> Vector2Int \<Rightarrow> Piece \<Rightarrow> Squares" where
  "after_move sq from to piece = sq(to \<mapsto> landed piece to, from := None)"

definition record_of :: "Board \<Rightarrow> Vector2Int \<Rightarrow> Vector2Int \<Rightarrow> Piece \<Rightarrow> MoveCommand" where
  "record_of b from to piece =
     \<lparr>cmdFrom = from, cmdTo = to, movedPiece = Some piece,
      capturedPiece = squares b to, wasMoved = hasMoved piece,
      promotionOccurred = IsPromotion (moved piece to), previousTurn = currentTurn b\<rparr>"

definition committed :: "Board \<Rightarrow> Squares \<Rightarrow> MoveCommand \<Rightarrow> Board" where
  "committed b sq cmd = b\<lparr>squares := sq, currentTurn := flip (currentTurn b), history := cmd # history b\<rparr>"

text \<open>
  Two facts of every board that \<open>Initialize\<close>, \<open>MovePiece\<close> and \<open>UndoLastMove\<close> produce
  (lemmas \<open>coherent_Initialize\<close>, \<open>coherent_MovePiece\<close>, \<open>coherent_UndoLastMove\<close>): the
  position member of a piece names the square that holds it, and a winner is recorded only
  when the game is over.
\<close>

definition positions_ok :: "Squares \<Rightarrow> bool" where
  "positions_ok sq =
     list_all (\<lambda>pos. case sq pos of None \<Rightarrow> True | Some p \<Rightarrow> boardPosition p = pos) scan_order"

definition coherent :: "Board \<Rightarrow> bool" where
  "coherent b \<longleftrightarrow> positions_ok (squares b) \<and> (\<not> gameOver b \<longrightarrow> winner b = NoColor)"

text \<open>
  A third such fact (lemmas \<open>turns_ok_Initialize\<close>, \<open>turns_ok_MovePiece\<close>,
  \<open>turns_ok_UndoLastMove\<close>): the side to move is White or Black, now and in every record
  of the history.
\<close>

definition turns_ok :: "Board \<Rightarrow> bool" where
  "turns_ok b \<longleftrightarrow> currentTurn b \<noteq> NoColor \<and> list_all (\<lambda>cmd. previousTurn cmd \<noteq> NoColor) (history b)"

section \<open>Example positions\<close>

definition mk :: "PieceType \<Rightarrow> PieceColor \<Rightarrow> int \<Rightarrow> int \<Rightarrow> bool \<Rightarrow> Piece" where
  "mk t c x y m = \<lparr>type = t, color = c, boardPosition = Vector2Int x y, hasMoved = m\<rparr>"

definition put :: "Piece \<Rightarrow> Squares \<Rightarrow> Squares" where
  "put p sq = sq(boardPosition p \<mapsto> p)"

definition position :: "Piece list \<Rightarrow> PieceColor \<Rightarrow> Board" where
  "position ps t = \<lparr>squares = foldr put ps (\<lambda>_. None), currentTurn = t, gameOver = False,
                     winner = NoColor, history = []\<rparr>"

text \<open>
  A White pawn one step from promotion, with nothing pinned.
\<close>

definition promo_board :: Board where
  "promo_board = position [mk Pawn White 3 1 True, mk King White 7 7 True, mk King Black 0 7 True] White"

text \<open>
  The same pawn shielding its king on rank 1 from a Black rook: pushing it exposes the king.
\<close>

definition pin_board :: Board where
  "pin_board = position [mk Pawn White 3 1 True, mk King White 7 1 True,
                         mk Rook Black 0 1 True, mk King Black 7 7 True] White"

text \<open>
  An unmoved White rook shielding its king on the e-file from a Black rook.
\<close>

definition rook_pin_board :: Board where
  "rook_pin_board = position [mk Rook White 4 6 False, mk King White 4 7 False,
                              mk Rook Black 4 0 True, mk King Black 0 0 True] White"

text \<open>
  The White queen goes from (1,7) to (1,2) and leaves the Black king in the corner without a move.
\<close>

definition stalemate_board :: Board where
  "stalemate_board = position [mk Queen White 1 7 True, mk King White 7 7 True, mk King Black 0 0 True] White"

definition stalemate_final :: Board where
  "stalemate_final = position [mk Queen White 1 2 True, mk King White 7 7 True, mk King Black 0 0 True] Black"

text \<open>
  Two rooks against a bare king: the rook on (6,7) mates on (6,0).
\<close>

definition mate_board :: Board where
  "mate_board = position [mk Rook White 6 7 True, mk Rook White 7 1 True, mk King White 7 7 True,
                          mk King Black 0 0 True] White"

text \<open>
  A White pawn on its starting square, a Black knight on one of its diagonals and a
  White pawn on the other; no king of either colour.
\<close>

definition pawn_squares :: Squares where
  "pawn_squares = foldr put [mk Pawn White 4 6 False, mk Knight Black 5 5 True, mk Pawn White 3 5 True] (\<lambda>_. None)"

section \<open>Move generation never targets a square of the own colour\<close>

lemma ray_target:
  "m \<in> set (ray board c pos d ss) \<Longrightarrow>
     InBounds (vx m) (vy m) \<and> (case board m of None \<Rightarrow> True | Some q \<Rightarrow> color q \<noteq> c)"
  by (induction ss) (auto simp: Let_def split: if_splits option.splits)

lemma jump_target:
  "m \<in> set (jump board p j) \<Longrightarrow>
     InBounds (vx m) (vy m) \<and> (case board m of None \<Rightarrow> True | Some q \<Rightarrow> color q \<noteq> color p)"
  by (auto simp: jump_def Let_def split: if_splits option.splits)

lemma pawn_capture_target:
  "m \<in> set (pawn_capture board p d dx) \<Longrightarrow>
     InBounds (vx m) (vy m) \<and> (case board m of None \<Rightarrow> True | Some q \<Rightarrow> color q \<noteq> color p)"
  by (auto simp: pawn_capture_def Let_def split: if_splits option.splits)

lemma PawnMoves_target:
  "m \<in> set (PawnMoves board p) \<Longrightarrow>
     InBounds (vx m) (vy m) \<and> (case board m of None \<Rightarrow> True | Some q \<Rightarrow> color q \<noteq> color p)"
  unfolding PawnMoves_def Let_def
  by (auto dest!: pawn_capture_target split: if_splits)

lemma GetValidMoves_target:
  "m \<in> set (GetValidMoves board p) \<Longrightarrow>
     InBounds (vx m) (vy m) \<and> (case board m of None \<Rightarrow> True | Some q \<Rightarrow> color q \<noteq> color p)"
  unfolding GetValidMoves_def slide_def
  by (cases "type p") (auto dest!: ray_target jump_target PawnMoves_target)

lemma GetValidMoves_not_own:
  "board pos = Some p \<Longrightarrow> pos \<notin> set (GetValidMoves board p)"
  using GetValidMoves_target[of pos board p] by auto

section \<open>The squares the loops visit\<close>

lemma set_coords: "set coords = {0..7}"
  by (auto simp: coords_def)

lemma in_scan_order: "pos \<in> set scan_order \<longleftrightarrow> InBounds (vx pos) (vy pos)"
proof (cases pos)
  case (Vector2Int x y)
  have "set scan_order = (\<Union>b\<in>{0..7}. (\<lambda>a. Vector2Int a b) ` {0..7})"
    by (simp add: scan_order_def set_coords)
  then have "Vector2Int x y \<in> set scan_order \<longleftrightarrow> x \<in> {0..7} \<and> y \<in> {0..7}"
    by (simp add: image_iff conj_commute)
  then show ?thesis
    unfolding Vector2Int by (auto simp: InBounds_def BOARD_SIZE_def)
qed

section \<open>HasLegalMoves restores the board\<close>

lemma simulate_restores:
  assumes "sq src = Some p" "mv \<noteq> src"
  shows "simulate sq src mv c = Some (IsInCheck (relocate sq src p mv) c, sq)"
proof -
  have e: "sq(src \<mapsto> p, mv := sq mv) = sq"
    using assms by (auto simp: fun_eq_iff)
  show ?thesis
    using assms unfolding simulate_def
    by (simp add: modify_def move_ptr_def Let_def relocate_def e)
qed

lemma try_moves_restores:
  assumes "sq src = Some p" "src \<notin> set ms"
  shows "try_moves sq src c ms = Some (list_ex (\<lambda>mv. \<not> IsInCheck (relocate sq src p mv) c) ms, sq)"
  using assms
  by (induction ms) (auto simp: simulate_restores)

lemma scan_legal_restores:
  "scan_legal sq c ps = Some (list_ex (can_escape sq c) ps, sq)"
proof (induction ps)
  case Nil
  show ?case by simp
next
  case (Cons pos ps)
  show ?case
  proof (cases "sq pos")
    case None
    then show ?thesis using Cons by (simp add: can_escape_def)
  next
    case (Some p)
    have "try_moves sq pos c (GetValidMoves sq p)
            = Some (list_ex (\<lambda>mv. \<not> IsInCheck (relocate sq pos p mv) c) (GetValidMoves sq p), sq)"
      using Some GetValidMoves_not_own by (intro try_moves_restores) auto
    then show ?thesis using Some Cons by (simp add: can_escape_def)
  qed
qed

lemma HasLegalMoves_eq: "HasLegalMoves b c = Some (legal_move_exists (squares b) c, b)"
  by (simp add: HasLegalMoves_def scan_legal_restores legal_move_exists_def)

lemma legal_move_exists_iff:
  "legal_move_exists sq c \<longleftrightarrow>
     (\<exists>pos p mv. InBounds (vx pos) (vy pos) \<and> sq pos = Some p \<and> color p = c
        \<and> mv \<in> set (GetValidMoves sq p) \<and> \<not> IsInCheck (relocate sq pos p mv) c)"
  unfolding legal_move_exists_def list_ex_iff can_escape_def Bex_def in_scan_order
  by (fastforce split: option.splits)

section \<open>MovePiece, case by case\<close>

lemma commit_eq:
  "commit b sq cmd =
     (let b2 = committed b sq cmd;
          inCheck = IsInCheck sq (flip (currentTurn b));
          hasMoves = legal_move_exists sq (flip (currentTurn b))
      in Some (if inCheck \<and> \<not> hasMoves then (Checkmate, b2\<lparr>gameOver := True, winner := flip (flip (currentTurn b))\<rparr>)
               else if \<not> inCheck \<and> \<not> hasMoves then (Stalemate, b2\<lparr>gameOver := True, winner := NoColor\<rparr>)
               else if inCheck then (Check, b2)
               else (Success, b2)))"
  by (simp add: commit_def HasLegalMoves_eq Let_def committed_def)

lemma apply_move_eq:
  assumes "squares b from = Some piece" "to \<noteq> from"
  shows "apply_move b from to piece =
     (if IsInCheck (after_move (squares b) from to piece) (currentTurn b)
      then Some (Invalid, b\<lparr>squares := (squares b)(from \<mapsto> (landed piece to)\<lparr>boardPosition := boardPosition piece\<rparr>)\<rparr>)
      else commit b (after_move (squares b) from to piece) (record_of b from to piece))"
proof -
  have tw: "(m(from := x))(to := y) = (m(to := y))(from := x)" for m :: Squares and x y
    using assms(2) by (simp add: fun_upd_twist)
  have id: "(squares b)(to := squares b to) = squares b"
    by simp
  show ?thesis
    using assms unfolding apply_move_def
    by (simp add: modify_def move_ptr_def Let_def HandlePromotion_def CreatePiece_def
          after_move_def landed_def moved_def record_of_def tw id)
qed

lemma MovePiece_eq:
  "MovePiece b from to =
     (if gameOver b then Some (Invalid, b)
      else if \<not> InBounds (vx from) (vy from) \<or> \<not> InBounds (vx to) (vy to) then Some (Invalid, b)
      else case squares b from of
             None \<Rightarrow> Some (Invalid, b)
           | Some piece \<Rightarrow>
               if color piece \<noteq> currentTurn b then Some (Invalid, b)
               else if to \<notin> set (GetValidMoves (squares b) piece) then Some (Invalid, b)
               else if IsInCheck (after_move (squares b) from to piece) (currentTurn b)
               then Some (Invalid, b\<lparr>squares := (squares b)(from \<mapsto> (landed piece to)\<lparr>boardPosition := boardPosition piece\<rparr>)\<rparr>)
               else commit b (after_move (squares b) from to piece) (record_of b from to piece))"
proof (cases "squares b from")
  case None
  then show ?thesis by (simp add: MovePiece_def)
next
  case (Some piece)
  have "to \<noteq> from" if "to \<in> set (GetValidMoves (squares b) piece)"
    using that Some GetValidMoves_not_own[of "squares b" "from" piece] by auto
  then show ?thesis
    using Some by (simp add: MovePiece_def apply_move_eq)
qed

lemma commit_not_Invalid: "commit b sq cmd = Some (r, b') \<Longrightarrow> r \<noteq> Invalid"
  by (auto simp: commit_eq Let_def split: if_splits)

lemma MovePiece_committed:
  assumes "MovePiece b from to = Some (r, b')" "r \<noteq> Invalid"
  obtains piece where
    "\<not> gameOver b" "InBounds (vx from) (vy from)" "InBounds (vx to) (vy to)"
    "squares b from = Some piece" "color piece = currentTurn b"
    "to \<in> set (GetValidMoves (squares b) piece)"
    "\<not> IsInCheck (after_move (squares b) from to piece) (currentTurn b)"
    "commit b (after_move (squares b) from to piece) (record_of b from to piece) = Some (r, b')"
  using assms unfolding MovePiece_eq
  by (auto split: if_splits option.splits)

lemma commit_fields:
  assumes "commit b sq cmd = Some (r, b')"
  shows "squares b' = sq" "currentTurn b' = flip (currentTurn b)" "history b' = cmd # history b"
  using assms by (auto simp: commit_eq Let_def committed_def split: if_splits)

lemma MovePiece_Invalid_frame:
  assumes "MovePiece b from to = Some (Invalid, b')"
  shows "currentTurn b' = currentTurn b" "history b' = history b" "gameOver b' = gameOver b" "winner b' = winner b"
  using assms unfolding MovePiece_eq
  by (auto split: if_splits option.splits dest: commit_not_Invalid)

lemma MovePiece_Invalid_squares:
  assumes "MovePiece b from to = Some (Invalid, b')"
  shows "squares b' = squares b
       \<or> (\<exists>piece. InBounds (vx from) (vy from) \<and> squares b from = Some piece
            \<and> squares b' = (squares b)(from \<mapsto> (landed piece to)\<lparr>boardPosition := boardPosition piece\<rparr>))"
  using assms unfolding MovePiece_eq
  by (auto split: if_splits option.splits dest: commit_not_Invalid)

lemma MovePiece_defined: "\<exists>r b'. MovePiece b from to = Some (r, b')"
  unfolding MovePiece_eq commit_eq Let_def
  by (auto split: option.splits)

section \<open>Coherent boards\<close>

lemma positions_okD:
  "positions_ok sq \<Longrightarrow> InBounds (vx pos) (vy pos) \<Longrightarrow> sq pos = Some p \<Longrightarrow> boardPosition p = pos"
  unfolding positions_ok_def list_all_iff in_scan_order[symmetric]
  by (auto split: option.splits)

lemma positions_ok_iff:
  "positions_ok sq \<longleftrightarrow> (\<forall>pos p. InBounds (vx pos) (vy pos) \<longrightarrow> sq pos = Some p \<longrightarrow> boardPosition p = pos)"
  unfolding positions_ok_def list_all_iff Ball_def in_scan_order
  by (auto split: option.splits)

lemma positions_ok_upd:
  "positions_ok sq \<Longrightarrow> (\<And>p. v = Some p \<Longrightarrow> boardPosition p = pos) \<Longrightarrow> positions_ok (sq(pos := v))"
  unfolding positions_ok_iff by auto

lemma positions_ok_CreatePiece:
  "positions_ok sq \<Longrightarrow> positions_ok (sq(pos := CreatePiece t c pos))"
  by (rule positions_ok_upd) (auto simp: CreatePiece_def split: PieceType.splits)

lemma positions_ok_fold:
  "positions_ok sq \<Longrightarrow>
   positions_ok (fold (\<lambda>i sq. sq(Vector2Int i y := CreatePiece t c (Vector2Int i y))) xs sq)"
  by (induction xs arbitrary: sq) (simp_all add: positions_ok_CreatePiece)

lemma coherent_Initialize: "coherent (Initialize Board_new)"
proof -
  have "positions_ok (squares Board_new)"
    by (simp add: positions_ok_iff Board_new_def)
  then have "positions_ok (squares (Initialize Board_new))"
    unfolding Initialize_def Let_def
    by (simp add: positions_ok_CreatePiece positions_ok_fold)
  then show ?thesis
    by (simp add: coherent_def Initialize_def Board_new_def Let_def)
qed

lemma coherent_MovePiece:
  assumes "MovePiece b from to = Some (r, b')" "coherent b"
  shows "coherent b'"
proof (cases "r = Invalid")
  case True
  have g: "gameOver b' = gameOver b" "winner b' = winner b"
    using MovePiece_Invalid_frame[of b "from" to b'] assms(1) True by simp_all
  have ok: "positions_ok (squares b)" using assms(2) by (simp add: coherent_def)
  from MovePiece_Invalid_squares[of b "from" to b'] assms(1) True
  consider "squares b' = squares b"
    | piece where "InBounds (vx from) (vy from)" "squares b from = Some piece"
        "squares b' = (squares b)(from \<mapsto> (landed piece to)\<lparr>boardPosition := boardPosition piece\<rparr>)"
    by auto
  then have "positions_ok (squares b')"
  proof cases
    case 1
    then show ?thesis using ok by simp
  next
    case 2
    have "boardPosition piece = from" using positions_okD[OF ok 2(1,2)] .
    then show ?thesis unfolding 2(3) using ok by (intro positions_ok_upd) auto
  qed
  then show ?thesis using g assms(2) by (simp add: coherent_def)
next
  case False
  with assms(1) obtain piece where
    c: "commit b (after_move (squares b) from to piece) (record_of b from to piece) = Some (r, b')"
    by (rule MovePiece_committed)
  have "positions_ok (after_move (squares b) from to piece)"
    unfolding after_move_def using assms(2)
    by (auto simp: coherent_def landed_def moved_def intro!: positions_ok_upd)
  then have "positions_ok (squares b')"
    using commit_fields(1)[OF c] by simp
  moreover have "\<not> gameOver b' \<longrightarrow> winner b' = winner b \<and> \<not> gameOver b"
    using c by (auto simp: commit_eq Let_def committed_def split: if_splits)
  ultimately show ?thesis using assms(2) by (auto simp: coherent_def)
qed

lemma coherent_UndoLastMove:
  assumes "UndoLastMove b = Some (ok, b')" "coherent b"
  shows "coherent b'"
  using assms unfolding UndoLastMove_def Undo_def coherent_def
  by (auto simp: modify_def Let_def intro!: positions_ok_upd
           split: list.splits option.splits if_splits)

lemma turns_ok_Initialize: "turns_ok (Initialize Board_new)"
  by (simp add: turns_ok_def Initialize_def Board_new_def Let_def)

lemma turns_ok_MovePiece:
  assumes "MovePiece b from to = Some (r, b')" "turns_ok b"
  shows "turns_ok b'"
proof (cases "r = Invalid")
  case True
  then show ?thesis
    using MovePiece_Invalid_frame(1,2)[of b "from" to b'] assms by (simp add: turns_ok_def)
next
  case False
  with assms(1) obtain piece where
    c: "commit b (after_move (squares b) from to piece) (record_of b from to piece) = Some (r, b')"
    by (rule MovePiece_committed)
  show ?thesis
    using commit_fields(2,3)[OF c] assms(2)
    by (simp add: turns_ok_def flip_def record_of_def)
qed

lemma turns_ok_UndoLastMove:
  assumes "UndoLastMove b = Some (ok, b')" "turns_ok b"
  shows "turns_ok b'"
  using assms unfolding UndoLastMove_def Undo_def turns_ok_def
  by (auto simp: modify_def Let_def split: list.splits option.splits)

lemma Undo_record_of:
  assumes "squares b' = after_move S from to piece"
    and "S from = Some piece" "to \<noteq> from"
    and "boardPosition piece = from"
    and "\<And>q. S to = Some q \<Longrightarrow> boardPosition q = to"
  shows "Undo \<lparr>cmdFrom = from, cmdTo = to, movedPiece = Some piece,
      capturedPiece = S to, wasMoved = hasMoved piece,
      promotionOccurred = pr, previousTurn = t\<rparr> b'
     = Some (b'\<lparr>squares := S, currentTurn := t, gameOver := False, winner := NoColor\<rparr>)"
proof -
  have p: "piece\<lparr>boardPosition := from, hasMoved := hasMoved piece\<rparr> = piece"
    using assms(4) by simp
  have e: "(after_move S from to piece)(from \<mapsto> piece, to := S to) = S"
    using assms(2,3) by (auto simp: after_move_def fun_eq_iff)
  show ?thesis
  proof (cases "S to")
    case None
    then show ?thesis
      using assms(3) e unfolding Undo_def
      by (simp add: modify_def Let_def assms(1) p)
  next
    case (Some q)
    have q: "q\<lparr>boardPosition := to\<rparr> = q" using assms(5)[OF Some] by simp
    have e': "(after_move S from to piece)(from \<mapsto> piece, to \<mapsto> q) = S"
      using e Some by simp
    show ?thesis
      using assms(3) Some unfolding Undo_def
      by (simp add: modify_def Let_def assms(1) p q e')
  qed
qed

section \<open>Evaluation of the example positions\<close>

lemmas board_defs = mk_def put_def position_def

lemmas movegen_defs = GetValidMoves_def slide_def steps_def rook_dirs_def bishop_dirs_def queen_dirs_def
  knight_jumps_def king_offsets_def jump_def pawn_capture_def PawnMoves_def InBounds_def BOARD_SIZE_def Let_def

lemmas check_defs = IsInCheck_def FindKing_def is_king_of_def attacks_def scan_order_def coords_def

lemmas move_defs = MovePiece_eq commit_eq committed_def after_move_def landed_def moved_def IsPromotion_def
  legal_move_exists_def can_escape_def relocate_def flip_def

lemma promo_eval:
  "\<exists>b'. MovePiece promo_board (Vector2Int 3 1) (Vector2Int 3 0) = Some (Success, b')"
  by (simp add: promo_board_def board_defs movegen_defs check_defs move_defs)

lemma stalemate_eval:
  "\<exists>b'. MovePiece stalemate_board (Vector2Int 1 7) (Vector2Int 1 2) = Some (Stalemate, b')"
  by (simp add: stalemate_board_def board_defs movegen_defs check_defs move_defs)

lemma mate_eval:
  "\<exists>b'. MovePiece mate_board (Vector2Int 6 7) (Vector2Int 6 0) = Some (Checkmate, b')"
  by (simp add: mate_board_def board_defs movegen_defs check_defs move_defs)

lemma pin_eval:
  "\<exists>b'. MovePiece pin_board (Vector2Int 3 1) (Vector2Int 3 0) = Some (Invalid, b')"
  by (simp add: pin_board_def board_defs movegen_defs check_defs move_defs)

lemma MovePiece_revert_keeps_hasMoved:
  "\<exists>b'. MovePiece rook_pin_board (Vector2Int 4 6) (Vector2Int 3 6) = Some (Invalid, b')
        \<and> squares rook_pin_board (Vector2Int 4 6) = Some (mk Rook White 4 6 False)
        \<and> squares b' (Vector2Int 4 6) = Some (mk Rook White 4 6 True)"
  by (simp add: rook_pin_board_def board_defs movegen_defs check_defs move_defs)

lemma coherent_position_eval:
  "coherent promo_board"
  by (simp add: coherent_def positions_ok_def promo_board_def board_defs scan_order_def coords_def)

section \<open>The claims\<close>

text \<open>
  Claim C1. The claim: when \<open>MovePiece\<close> returns \<open>Invalid\<close> because the applied move leaves the
  king of the mover in check, the board is exactly as before the call, the promotion swap
  undone and \<open>hasMoved\<close> restored. The code does not do that. On \<open>pin_board\<close> the White
  pawn on (3,1) is moved to (3,0): the move is applied, the pawn is replaced by a Queen, the
  White king is then attacked along rank 1, the branch of lines 493-499 moves the piece
  back and returns \<open>Invalid\<close>; the square (3,1), which held a pawn that had moved, now
  holds a Queen with \<open>hasMoved\<close> false. Lemma \<open>MovePiece_revert_keeps_hasMoved\<close> shows
  the other half on \<open>rook_pin_board\<close>: the rejected rook keeps \<open>hasMoved = true\<close>.
  \<open>MovePiece_Invalid_frame\<close> and \<open>MovePiece_Invalid_squares\<close> state what the branch does
  restore: turn, history, game-over flag, winner, and every square but \<open>from\<close>.
\<close>

theorem MovePiece_revert_is_partial:
  "\<exists>b'. MovePiece pin_board (Vector2Int 3 1) (Vector2Int 3 0) = Some (Invalid, b')
        \<and> squares pin_board (Vector2Int 3 1) = Some (mk Pawn White 3 1 True)
        \<and> squares b' (Vector2Int 3 1) = Some (mk Queen White 3 1 False)"
  by (simp add: pin_board_def board_defs movegen_defs check_defs move_defs)

theorem MovePiece_revert_is_partial_witness:
  "\<exists>b'. MovePiece pin_board (Vector2Int 3 1) (Vector2Int 3 0) = Some (Invalid, b')
        \<and> squares b' (Vector2Int 3 1) \<noteq> squares pin_board (Vector2Int 3 1)"
  using MovePiece_revert_is_partial by (auto simp: mk_def)

text \<open>
  Claim C2. On a coherent board, after a call of \<open>MovePiece\<close> that returns anything but
  \<open>Invalid\<close>, \<open>UndoLastMove\<close> returns true and the board it leaves is the board before
  the move: every square (type, colour, position and \<open>hasMoved\<close> of each piece), the turn,
  the game-over flag, the winner, and the history as well.
\<close>

theorem Undo_inverts_committed_move:
  assumes "MovePiece b from to = Some (r, b')" "r \<noteq> Invalid" "coherent b"
  shows "UndoLastMove b' = Some (True, b)"
proof -
  from assms(1,2) obtain piece where
    g: "\<not> gameOver b" and bf: "InBounds (vx from) (vy from)" and bt: "InBounds (vx to) (vy to)"
    and p: "squares b from = Some piece" and m: "to \<in> set (GetValidMoves (squares b) piece)"
    and c: "commit b (after_move (squares b) from to piece) (record_of b from to piece) = Some (r, b')"
    by (rule MovePiece_committed)
  have ok: "positions_ok (squares b)" and w: "winner b = NoColor"
    using assms(3) g by (simp_all add: coherent_def)
  have ne: "to \<noteq> from" using m p GetValidMoves_not_own[of "squares b" "from" piece] by auto
  have s: "squares b' = after_move (squares b) from to piece"
    and h: "history b' = record_of b from to piece # history b"
    using commit_fields[OF c] by simp_all
  have u: "Undo (record_of b from to piece) b'
         = Some (b'\<lparr>squares := squares b, currentTurn := currentTurn b, gameOver := False, winner := NoColor\<rparr>)"
    unfolding record_of_def
    using s p ne positions_okD[OF ok bf p] positions_okD[OF ok bt]
    by (rule Undo_record_of)
  have "b'\<lparr>squares := squares b, currentTurn := currentTurn b, gameOver := False,
            winner := NoColor, history := history b\<rparr> = b"
    using g w by simp
  then show ?thesis
    by (simp add: UndoLastMove_def h u)
qed

theorem Undo_inverts_committed_move_witness:
  "coherent promo_board \<and>
   (\<exists>b'. MovePiece promo_board (Vector2Int 3 1) (Vector2Int 3 0) = Some (Success, b')
         \<and> UndoLastMove b' = Some (True, promo_board))"
proof -
  obtain b' where e: "MovePiece promo_board (Vector2Int 3 1) (Vector2Int 3 0) = Some (Success, b')"
    using promo_eval by blast
  have c: "coherent promo_board" by (rule coherent_position_eval)
  have "UndoLastMove b' = Some (True, promo_board)"
    using Undo_inverts_committed_move[OF e _ c] by simp
  then show ?thesis using e c by blast
qed

text \<open>
  Claim C3. Whenever \<open>MovePiece\<close> returns a result other than \<open>Invalid\<close>, the side that moved (the
  turn before the call) is not in check on the board after the call.
\<close>

theorem MovePiece_never_leaves_mover_in_check:
  assumes "MovePiece b from to = Some (r, b')" "r \<noteq> Invalid"
  shows "\<not> IsInCheck (squares b') (currentTurn b)"
proof -
  from assms obtain piece where
    a: "\<not> IsInCheck (after_move (squares b) from to piece) (currentTurn b)"
    and c: "commit b (after_move (squares b) from to piece) (record_of b from to piece) = Some (r, b')"
    by (rule MovePiece_committed)
  show ?thesis using a commit_fields(1)[OF c] by simp
qed

theorem MovePiece_never_leaves_mover_in_check_witness:
  "\<exists>b'. MovePiece mate_board (Vector2Int 6 7) (Vector2Int 6 0) = Some (Checkmate, b')
        \<and> \<not> IsInCheck (squares b') White"
proof -
  obtain b' where e: "MovePiece mate_board (Vector2Int 6 7) (Vector2Int 6 0) = Some (Checkmate, b')"
    using mate_eval by blast
  have "\<not> IsInCheck (squares b') (currentTurn mate_board)"
    using MovePiece_never_leaves_mover_in_check[OF e] by simp
  then show ?thesis using e by (auto simp: mate_board_def position_def)
qed

text \<open>
  Claim C4. After a call of \<open>MovePiece\<close> that commits, with \<open>inCheck\<close> and \<open>hasMoves\<close> what
  \<open>IsInCheck\<close> and \<open>HasLegalMoves\<close> answer for the new side to move on the board after
  the call: in check without a legal move gives \<open>Checkmate\<close>, game over, the mover as
  winner; not in check without a legal move gives \<open>Stalemate\<close>, game over, no winner; in
  check with a legal move gives \<open>Check\<close>; otherwise \<open>Success\<close>. The turn before the call
  is White or Black, as the data model of the board has it.
\<close>

theorem MovePiece_classification:
  assumes "MovePiece b from to = Some (r, b')" "r \<noteq> Invalid" "currentTurn b \<noteq> NoColor"
  shows "\<exists>hasMoves. HasLegalMoves b' (currentTurn b') = Some (hasMoves, b') \<and>
     (let inCheck = IsInCheck (squares b') (currentTurn b') in
        (inCheck \<and> \<not> hasMoves \<longrightarrow> r = Checkmate \<and> gameOver b' \<and> winner b' = currentTurn b)
      \<and> (\<not> inCheck \<and> \<not> hasMoves \<longrightarrow> r = Stalemate \<and> gameOver b' \<and> winner b' = NoColor)
      \<and> (inCheck \<and> hasMoves \<longrightarrow> r = Check)
      \<and> (\<not> inCheck \<and> hasMoves \<longrightarrow> r = Success))"
proof -
  from assms(1,2) obtain piece where
    c: "commit b (after_move (squares b) from to piece) (record_of b from to piece) = Some (r, b')"
    by (rule MovePiece_committed)
  have t: "currentTurn b' = flip (currentTurn b)" and s: "squares b' = after_move (squares b) from to piece"
    using commit_fields[OF c] by simp_all
  have f: "flip (flip (currentTurn b)) = currentTurn b"
    using assms(3) by (cases "currentTurn b") (simp_all add: flip_def)
  show ?thesis
    unfolding HasLegalMoves_eq t s using c
    by (auto simp: commit_eq Let_def committed_def f split: if_splits)
qed

theorem MovePiece_classification_witness:
  "\<exists>b'. MovePiece mate_board (Vector2Int 6 7) (Vector2Int 6 0) = Some (Checkmate, b')
        \<and> gameOver b' \<and> winner b' = White
        \<and> IsInCheck (squares b') (currentTurn b')
        \<and> HasLegalMoves b' (currentTurn b') = Some (False, b')"
proof -
  obtain b' where e: "MovePiece mate_board (Vector2Int 6 7) (Vector2Int 6 0) = Some (Checkmate, b')"
    using mate_eval by blast
  have t: "currentTurn mate_board = White" by (simp add: mate_board_def position_def)
  from MovePiece_classification[OF e] t
  show ?thesis using e by (auto simp: Let_def)
qed

text \<open>
  Claim C5. After \<open>Success\<close>, \<open>Check\<close> or \<open>Checkmate\<close> the turn is the opposite colour of the turn
  before the call; after \<open>Invalid\<close> it is unchanged.
\<close>

theorem MovePiece_turn_alternation:
  assumes "MovePiece b from to = Some (r, b')"
  shows "(r \<in> {Success, Check, Checkmate} \<longrightarrow>
            (currentTurn b = White \<longrightarrow> currentTurn b' = Black)
          \<and> (currentTurn b = Black \<longrightarrow> currentTurn b' = White))
       \<and> (r = Invalid \<longrightarrow> currentTurn b' = currentTurn b)"
proof (cases "r = Invalid")
  case True
  then show ?thesis using MovePiece_Invalid_frame(1)[of b "from" to b'] assms by simp
next
  case False
  with assms obtain piece where
    c: "commit b (after_move (squares b) from to piece) (record_of b from to piece) = Some (r, b')"
    by (rule MovePiece_committed)
  show ?thesis using False commit_fields(2)[OF c] by (simp add: flip_def)
qed

theorem MovePiece_turn_alternation_witness:
  "(\<exists>b'. MovePiece promo_board (Vector2Int 3 1) (Vector2Int 3 0) = Some (Success, b')
         \<and> currentTurn promo_board = White \<and> currentTurn b' = Black)
 \<and> (\<exists>b'. MovePiece pin_board (Vector2Int 3 1) (Vector2Int 3 0) = Some (Invalid, b')
         \<and> currentTurn b' = currentTurn pin_board)"
proof -
  obtain b1 where e1: "MovePiece promo_board (Vector2Int 3 1) (Vector2Int 3 0) = Some (Success, b1)"
    using promo_eval by blast
  obtain b2 where e2: "MovePiece pin_board (Vector2Int 3 1) (Vector2Int 3 0) = Some (Invalid, b2)"
    using pin_eval by blast
  have t: "currentTurn promo_board = White" by (simp add: promo_board_def position_def)
  have "currentTurn b1 = Black"
    using MovePiece_turn_alternation[OF e1] t by simp
  moreover have "currentTurn b2 = currentTurn pin_board"
    using MovePiece_turn_alternation[OF e2] by simp
  ultimately show ?thesis using e1 e2 t by blast
qed

text \<open>
  Claim C6. \<open>HasLegalMoves\<close> returns, leaves the whole board as it was (squares, turn, game-over
  flag, winner, history), and answers true exactly when some piece of the colour, on a
  square of the grid, has a move among its \<open>GetValidMoves\<close> whose simulation leaves
  \<open>IsInCheck\<close> of that colour false.
\<close>

theorem HasLegalMoves_frame_and_result:
  "HasLegalMoves b c =
     Some ((\<exists>pos p mv. InBounds (vx pos) (vy pos) \<and> squares b pos = Some p \<and> color p = c
              \<and> mv \<in> set (GetValidMoves (squares b) p)
              \<and> \<not> IsInCheck (relocate (squares b) pos p mv) c), b)"
proof -
  have "scan_legal (squares b) c scan_order = Some (legal_move_exists (squares b) c, squares b)"
    unfolding legal_move_exists_def by (rule scan_legal_restores)
  then have "HasLegalMoves b c = Some (legal_move_exists (squares b) c, b)"
    by (simp add: HasLegalMoves_def)
  then show ?thesis
    unfolding legal_move_exists_iff .
qed

theorem HasLegalMoves_frame_and_result_witness:
  "HasLegalMoves stalemate_final Black = Some (False, stalemate_final)
   \<and> HasLegalMoves promo_board White = Some (True, promo_board)"
proof -
  have "\<not> legal_move_exists (squares stalemate_final) Black"
    by (simp add: stalemate_final_def board_defs movegen_defs check_defs legal_move_exists_def can_escape_def relocate_def)
  moreover have "legal_move_exists (squares promo_board) White"
    by (simp add: promo_board_def board_defs movegen_defs check_defs legal_move_exists_def can_escape_def relocate_def)
  ultimately show ?thesis
    using HasLegalMoves_frame_and_result[of stalemate_final Black]
          HasLegalMoves_frame_and_result[of promo_board White]
    by (simp add: legal_move_exists_iff)
qed

text \<open>
  Claim C7. For a pawn on the square (x, y) of the grid, with \<open>d\<close> = -1, starting rank 6 and
  opposing colour Black for White, and \<open>d\<close> = +1, starting rank 1 and opposing colour
  White for Black, on a board whose pieces are all White or Black: a square is among the
  pawn's valid moves exactly when it is the forward square, in bounds and empty; or the
  double-step square, the pawn standing on its starting rank with both squares ahead
  empty; or one of the two diagonal-forward squares, in bounds and holding a piece of the
  opposing colour.
\<close>

theorem Pawn_GetValidMoves:
  assumes "type p = Pawn" "boardPosition p = Vector2Int x y" "InBounds x y"
    and "(color p = White \<and> d = -1 \<and> start = 6 \<and> opp = Black)
       \<or> (color p = Black \<and> d = 1 \<and> start = 1 \<and> opp = White)"
    and "\<And>pos q. board pos = Some q \<Longrightarrow> color q \<noteq> NoColor"
  shows "m \<in> set (GetValidMoves board p) \<longleftrightarrow>
       (m = Vector2Int x (y + d) \<and> InBounds x (y + d) \<and> board m = None)
     \<or> (m = Vector2Int x (y + 2 * d) \<and> y = start
          \<and> board (Vector2Int x (y + d)) = None \<and> board m = None)
     \<or> ((m = Vector2Int (x - 1) (y + d) \<or> m = Vector2Int (x + 1) (y + d))
          \<and> InBounds (vx m) (vy m) \<and> (\<exists>q. board m = Some q \<and> color q = opp))"
proof -
  have opp: "color q \<noteq> color p \<longleftrightarrow> color q = opp" if "board pos = Some q" for pos q
    using assms(4) assms(5)[OF that] by (cases "color q") auto
  have d: "d = (if color p = White then -1 else 1)" and st: "start = (if color p = White then 6 else 1)"
    using assms(4) by auto
  have c1: "n \<in> set (pawn_capture board p d dx) \<longleftrightarrow>
        n = Vector2Int (x + dx) (y + d) \<and> InBounds (x + dx) (y + d) \<and> (\<exists>q. board n = Some q \<and> color q = opp)" for n dx
    using opp by (auto simp: pawn_capture_def Let_def assms(2) split: option.splits)
  have ib: "InBounds x (y + d) \<and> InBounds x (y + 2 * d)" if "y = start"
    using that assms(3,4) by (auto simp: InBounds_def BOARD_SIZE_def)
  have "m \<in> set (PawnMoves board p) \<longleftrightarrow>
       (m = Vector2Int x (y + d) \<and> InBounds x (y + d) \<and> board m = None)
     \<or> (m = Vector2Int x (y + 2 * d) \<and> y = start
          \<and> board (Vector2Int x (y + d)) = None \<and> board m = None)
     \<or> ((m = Vector2Int (x - 1) (y + d) \<or> m = Vector2Int (x + 1) (y + d))
          \<and> InBounds (vx m) (vy m) \<and> (\<exists>q. board m = Some q \<and> color q = opp))"
    unfolding PawnMoves_def Let_def d[symmetric] st[symmetric] assms(2) Vector2Int.sel
    using ib by (auto simp: c1)
  then show ?thesis using assms(1) by (simp add: GetValidMoves_def)
qed

theorem Pawn_GetValidMoves_witness:
  "Vector2Int 4 5 \<in> set (GetValidMoves pawn_squares (mk Pawn White 4 6 False))
 \<and> Vector2Int 4 4 \<in> set (GetValidMoves pawn_squares (mk Pawn White 4 6 False))
 \<and> Vector2Int 5 5 \<in> set (GetValidMoves pawn_squares (mk Pawn White 4 6 False))
 \<and> Vector2Int 3 5 \<notin> set (GetValidMoves pawn_squares (mk Pawn White 4 6 False))"
proof -
  let ?p = "mk Pawn White 4 6 False"
  have h1: "type ?p = Pawn" and h2: "boardPosition ?p = Vector2Int 4 6"
    by (simp_all add: mk_def)
  have h3: "InBounds 4 6" by (simp add: InBounds_def BOARD_SIZE_def)
  have h4: "(color ?p = White \<and> (-1::int) = -1 \<and> (6::int) = 6 \<and> Black = Black)
          \<or> (color ?p = Black \<and> (-1::int) = 1 \<and> (6::int) = 1 \<and> Black = White)"
    by (simp add: mk_def)
  have h5: "color q \<noteq> NoColor" if "pawn_squares pos = Some q" for pos q
    using that by (auto simp: pawn_squares_def board_defs split: if_splits)
  have w: "m \<in> set (GetValidMoves pawn_squares ?p) \<longleftrightarrow>
       (m = Vector2Int 4 5 \<and> InBounds 4 5 \<and> pawn_squares m = None)
     \<or> (m = Vector2Int 4 4 \<and> pawn_squares (Vector2Int 4 5) = None \<and> pawn_squares m = None)
     \<or> ((m = Vector2Int 3 5 \<or> m = Vector2Int 5 5)
          \<and> InBounds (vx m) (vy m) \<and> (\<exists>q. pawn_squares m = Some q \<and> color q = Black))" for m
    using Pawn_GetValidMoves[OF h1 h2 h3 h4 h5, where m = m] by simp
  show ?thesis
    unfolding w by (simp add: pawn_squares_def board_defs InBounds_def BOARD_SIZE_def)
qed

text \<open>
  Claim C8. After a committed call of \<open>MovePiece\<close> that moves a White pawn to rank 0 or a Black
  pawn to rank 7, the destination holds a Queen of the pawn's colour, positioned on the
  destination, with \<open>hasMoved\<close> false.
\<close>

theorem MovePiece_promotes_to_Queen:
  assumes "MovePiece b from to = Some (r, b')" "r \<noteq> Invalid"
    and "squares b from = Some p" "type p = Pawn"
    and "(color p = White \<and> vy to = 0) \<or> (color p = Black \<and> vy to = 7)"
  shows "squares b' to = Some \<lparr>type = Queen, color = color p, boardPosition = to, hasMoved = False\<rparr>"
proof -
  from assms(1,2) obtain piece where
    p: "squares b from = Some piece" and m: "to \<in> set (GetValidMoves (squares b) piece)"
    and c: "commit b (after_move (squares b) from to piece) (record_of b from to piece) = Some (r, b')"
    by (rule MovePiece_committed)
  have e: "piece = p" using p assms(3) by simp
  have ne: "to \<noteq> from" using m p GetValidMoves_not_own[of "squares b" "from" piece] by auto
  have "IsPromotion (moved p to)"
    using assms(4,5) by (auto simp: IsPromotion_def moved_def)
  then have "after_move (squares b) from to p to = Some \<lparr>type = Queen, color = color p, boardPosition = to, hasMoved = False\<rparr>"
    using ne by (simp add: after_move_def landed_def)
  then show ?thesis using commit_fields(1)[OF c] e by simp
qed

theorem MovePiece_promotes_to_Queen_witness:
  "\<exists>b'. MovePiece promo_board (Vector2Int 3 1) (Vector2Int 3 0) = Some (Success, b')
        \<and> squares b' (Vector2Int 3 0) = Some (mk Queen White 3 0 False)"
proof -
  obtain b' where e: "MovePiece promo_board (Vector2Int 3 1) (Vector2Int 3 0) = Some (Success, b')"
    using promo_eval by blast
  have p: "squares promo_board (Vector2Int 3 1) = Some (mk Pawn White 3 1 True)"
    by (simp add: promo_board_def board_defs)
  have "squares b' (Vector2Int 3 0)
        = Some \<lparr>type = Queen, color = color (mk Pawn White 3 1 True),
                 boardPosition = Vector2Int 3 0, hasMoved = False\<rparr>"
    using MovePiece_promotes_to_Queen[OF e _ p] by (simp add: mk_def)
  then show ?thesis using e by (auto simp: mk_def)
qed

text \<open>
  Claim C9. When no square of the grid holds a king of the colour, \<open>FindKing\<close> yields (-1,-1)
  and \<open>IsInCheck\<close> returns false.
\<close>

theorem IsInCheck_without_king:
  assumes "\<And>x y p. InBounds x y \<Longrightarrow> sq (Vector2Int x y) = Some p \<Longrightarrow> \<not> (type p = King \<and> color p = c)"
  shows "FindKing sq c = Vector2Int (-1) (-1) \<and> IsInCheck sq c = False"
proof -
  have "\<not> is_king_of sq c pos" if "pos \<in> set scan_order" for pos
    using that assms[of "vx pos" "vy pos"] unfolding in_scan_order is_king_of_def
    by (auto split: option.splits)
  then have "find (is_king_of sq c) scan_order = None"
    by (simp add: find_None_iff)
  then have "FindKing sq c = Vector2Int (-1) (-1)"
    by (simp add: FindKing_def)
  then show ?thesis by (simp add: IsInCheck_def)
qed

theorem IsInCheck_without_king_witness:
  "FindKing pawn_squares White = Vector2Int (-1) (-1) \<and> IsInCheck pawn_squares White = False"
proof -
  have "\<not> (type p = King \<and> color p = White)" if "InBounds x y" "pawn_squares (Vector2Int x y) = Some p" for x y p
    using that by (auto simp: pawn_squares_def board_defs split: if_splits)
  then show ?thesis by (rule IsInCheck_without_king)
qed

text \<open>
  Claim C10. When \<open>MovePiece\<close> returns \<open>Stalemate\<close>, the turn after the call is the opposite of
  the turn before it, and it names the stalemated side: that side has no legal move and
  is not in check.
\<close>

theorem MovePiece_Stalemate_turn:
  assumes "MovePiece b from to = Some (Stalemate, b')"
  shows "(currentTurn b = White \<longrightarrow> currentTurn b' = Black)
       \<and> (currentTurn b = Black \<longrightarrow> currentTurn b' = White)
       \<and> HasLegalMoves b' (currentTurn b') = Some (False, b')
       \<and> \<not> IsInCheck (squares b') (currentTurn b')"
proof -
  from assms obtain piece where
    c: "commit b (after_move (squares b) from to piece) (record_of b from to piece) = Some (Stalemate, b')"
    by (rule MovePiece_committed) simp
  have t: "currentTurn b' = flip (currentTurn b)" and s: "squares b' = after_move (squares b) from to piece"
    using commit_fields[OF c] by simp_all
  have "\<not> IsInCheck (squares b') (currentTurn b') \<and> \<not> legal_move_exists (squares b') (currentTurn b')"
    using c unfolding t s by (auto simp: commit_eq Let_def split: if_splits)
  then show ?thesis using t by (simp add: HasLegalMoves_eq flip_def)
qed

theorem MovePiece_Stalemate_turn_witness:
  "\<exists>b'. MovePiece stalemate_board (Vector2Int 1 7) (Vector2Int 1 2) = Some (Stalemate, b')
        \<and> currentTurn stalemate_board = White \<and> currentTurn b' = Black
        \<and> HasLegalMoves b' Black = Some (False, b')"
proof -
  obtain b' where e: "MovePiece stalemate_board (Vector2Int 1 7) (Vector2Int 1 2) = Some (Stalemate, b')"
    using stalemate_eval by blast
  have t: "currentTurn stalemate_board = White" by (simp add: stalemate_board_def position_def)
  from MovePiece_Stalemate_turn[OF e] t
  have "currentTurn b' = Black \<and> HasLegalMoves b' (currentTurn b') = Some (False, b')" by blast
  then show ?thesis using e t by auto
qed

end
